theory Spec2Isabelle
  imports Main
begin

section \<open>The SGR attribute matrix printer\<close>

text \<open>
  The program, \<^verbatim>\<open>crates/icy_engine/term/a.c\<close>, is a single C function
  \<open>main(void)\<close>: nine label lines, each followed by the same nested loop over \<open>i\<close>
  (rows) and \<open>j\<close> (columns) that prints one SGR escape sequence per value
  \<open>n = 10 * i + j\<close>, stopping a row as soon as \<open>n > 108\<close>.

  The embedding keeps the three locals \<open>i\<close>, \<open>j\<close>, \<open>n\<close> and the standard output in an
  explicit state. The standard output is recorded as the sequence of \<open>printf\<close> calls the
  program made (format string and integer arguments, as written in the source); the
  bytes on the stream are obtained by rendering every call.
\<close>

subsection \<open>Characters and the part of printf the program uses\<close>

abbreviation ESC :: char where "ESC \<equiv> CHR 0x1B"
abbreviation NL :: char where "NL \<equiv> CHR 0x0A"

text \<open>Decimal digits of a natural number, most significant first (\<open>%d\<close> on a value \<open>\<ge> 0\<close>).\<close>

definition digit_char :: "nat \<Rightarrow> char" where
  "digit_char d = ''0123456789'' ! d"

function dec_nat :: "nat \<Rightarrow> string" where
  "dec_nat k = (if k < 10 then [digit_char k] else dec_nat (k div 10) @ [digit_char (k mod 10)])"
  by pat_completeness auto
termination
  by (relation "measure id") auto

declare dec_nat.simps [simp del]

text \<open>\<open>%d\<close>: a minus sign for negative values, then the digits of the magnitude.\<close>

definition dec_int :: "int \<Rightarrow> string" where
  "dec_int k = (if k < 0 then CHR ''-'' # dec_nat (nat (- k)) else dec_nat (nat k))"

text \<open>A minimum field width pads on the left with spaces and never truncates.\<close>

definition rjust :: "nat \<Rightarrow> string \<Rightarrow> string" where
  "rjust w s = replicate (w - length s) CHR '' '' @ s"

definition is_digit :: "char \<Rightarrow> bool" where
  "is_digit c = (c \<in> set ''0123456789'')"

definition digit_val :: "char \<Rightarrow> nat" where
  "digit_val c = length (takeWhile (\<lambda>d. d \<noteq> c) ''0123456789'')"

text \<open>
  The format interpreter: ordinary characters are copied; \<open>%\<close>, an optional decimal
  field width and \<open>d\<close> consume the next argument. Nothing else occurs in the program's
  format strings; on any other directive, or when the arguments run out, the model
  stops producing output.
\<close>

fun format :: "string \<Rightarrow> int list \<Rightarrow> string"
  and directive :: "nat \<Rightarrow> string \<Rightarrow> int list \<Rightarrow> string" where
  "format [] args = []"
| "format (c # cs) args =
     (if c = CHR ''%'' then directive 0 cs args else c # format cs args)"
| "directive w [] args = []"
| "directive w (c # cs) args =
     (if c = CHR ''d'' then
        (case args of [] \<Rightarrow> [] | a # as \<Rightarrow> rjust w (dec_int a) @ format cs as)
      else if is_digit c then directive (10 * w + digit_val c) cs args
      else [])"

subsection \<open>Program state and output\<close>

datatype call = Printf string "int list"

record state =
  loc_i :: int
  loc_j :: int
  loc_n :: int
  calls :: "call list"

text \<open>The return value of \<open>printf\<close> is ignored at every call site of the program.\<close>

definition printf :: "string \<Rightarrow> int list \<Rightarrow> state \<Rightarrow> state" where
  "printf fmt args s = s\<lparr>calls := calls s @ [Printf fmt args]\<rparr>"

fun render :: "call \<Rightarrow> string" where
  "render (Printf fmt args) = format fmt args"

definition stdout_bytes :: "state \<Rightarrow> string" where
  "stdout_bytes s = concat (map render (calls s))"

subsection \<open>The loops\<close>

text \<open>
  The inner loop, entered after \<open>j = 0\<close>:
  \<^verbatim>\<open>for (...; j < 10; j++) { n = 10 * i + j; if (n > 108) break; printf(fmt, n, n); }\<close>
  The guards keep \<open>i \<le> 11\<close>, \<open>j \<le> 10\<close> and \<open>n \<le> 109\<close>, far inside the range of a C
  \<open>int\<close>, so the locals are modelled as mathematical integers.
\<close>

function inner_loop :: "string \<Rightarrow> state \<Rightarrow> state" where
  "inner_loop fmt s =
     (if loc_j s < 10 then
        (let s1 = s\<lparr>loc_n := 10 * loc_i s + loc_j s\<rparr> in
         if loc_n s1 > 108 then s1
         else (let s2 = printf fmt [loc_n s1, loc_n s1] s1 in
               inner_loop fmt (s2\<lparr>loc_j := loc_j s2 + 1\<rparr>)))
      else s)"
  by pat_completeness auto
termination
  by (relation "measure (\<lambda>(fmt, s). nat (10 - loc_j s))") (auto simp: printf_def)

declare inner_loop.simps [simp del]

lemma inner_loop_loc_i: "loc_i (inner_loop fmt s) = loc_i s"
proof (induction fmt s rule: inner_loop.induct)
  case (1 fmt s)
  show ?case
    using "1.IH"
    by (subst inner_loop.simps) (simp add: Let_def printf_def)
qed

text \<open>
  The outer loop, entered after \<open>i = 0\<close>:
  \<^verbatim>\<open>for (...; i < 11; i++) { for (j = 0; ...) {...} printf("\n"); }\<close>
\<close>

function outer_loop :: "string \<Rightarrow> state \<Rightarrow> state" where
  "outer_loop fmt s =
     (if loc_i s < 11 then
        (let s1 = inner_loop fmt (s\<lparr>loc_j := 0\<rparr>);
             s2 = printf [NL] [] s1 in
         outer_loop fmt (s2\<lparr>loc_i := loc_i s2 + 1\<rparr>))
      else s)"
  by pat_completeness auto
termination
  by (relation "measure (\<lambda>(fmt, s). nat (11 - loc_i s))")
     (auto simp: printf_def inner_loop_loc_i)

declare outer_loop.simps [simp del]

text \<open>One attribute block of \<open>main\<close>: \<open>for (i = 0; ...) ...\<close> with the given cell format.\<close>

definition for_rows :: "string \<Rightarrow> state \<Rightarrow> state" where
  "for_rows fmt s = outer_loop fmt (s\<lparr>loc_i := 0\<rparr>)"

subsection \<open>main\<close>

definition main :: "state \<Rightarrow> int \<times> state" where
  "main s0 =
     (let s = printf (''Plain:'' @ [NL]) [] s0;
          s = for_rows (ESC # ''[%dm %3d'' @ ESC # ''[m'') s;
          s = printf (''Bold:'' @ [NL]) [] s;
          s = for_rows (ESC # ''[1;%dm %3d'' @ ESC # ''[m'') s;
          s = printf (''Bold:'' @ [NL]) [] s;
          s = for_rows (ESC # ''[2;%dm %3d'' @ ESC # ''[m'') s;
          s = printf (''Italic:'' @ [NL]) [] s;
          s = for_rows (ESC # ''[3;%dm %3d'' @ ESC # ''[m'') s;
          s = printf (''Blink:'' @ [NL]) [] s;
          s = for_rows (ESC # ''[5;%dm %3d'' @ ESC # ''[m'') s;
          s = printf (''Underline:'' @ [NL]) [] s;
          s = for_rows (ESC # ''[4;%dm %3d'' @ ESC # ''[m'') s;
          s = printf (''Crossed out :'' @ [NL]) [] s;
          s = for_rows (ESC # ''[9;%dm %3d'' @ ESC # ''[m'') s;
          s = printf (''Double underlined :'' @ [NL]) [] s;
          s = for_rows (ESC # ''[21;%dm %3d'' @ ESC # ''[m'') s;
          s = printf (''Conceal/hide :'' @ [NL]) [] s;
          s = for_rows (ESC # ''[8;%dm %3d'' @ ESC # ''[m'') s
      in (0, s))"

text \<open>
  At program start nothing has been written; the locals are declared without an
  initialiser, so their starting values are arbitrary.
\<close>

definition start :: "int \<Rightarrow> int \<Rightarrow> int \<Rightarrow> state" where
  "start a b c = \<lparr>loc_i = a, loc_j = b, loc_n = c, calls = []\<rparr>"

definition trace :: "int \<Rightarrow> int \<Rightarrow> int \<Rightarrow> call list" where
  "trace a b c = calls (snd (main (start a b c)))"

subsection \<open>Observing the output\<close>

text \<open>
  What one row and one attribute block write, as closed expressions: the values of row
  \<open>i\<close> from column \<open>j\<close> on are the numbers \<open>10 * i + k\<close> for \<open>k = j, ..., 9\<close>, cut at the
  first one above 108.
\<close>

definition row_values :: "int \<Rightarrow> int \<Rightarrow> int list" where
  "row_values i j = takeWhile (\<lambda>n. n \<le> 108) (map (\<lambda>k. 10 * i + k) [j..9])"

definition row_calls :: "string \<Rightarrow> int \<Rightarrow> call list" where
  "row_calls fmt i = map (\<lambda>n. Printf fmt [n, n]) (row_values i 0) @ [Printf [NL] []]"

definition block_calls :: "string \<Rightarrow> int \<Rightarrow> call list" where
  "block_calls fmt i = concat (map (row_calls fmt) [i..10])"

text \<open>The values of the eleven rows, computed once.\<close>

definition grid :: "int list list" where
  "grid = [[0..9], [10..19], [20..29], [30..39], [40..49], [50..59], [60..69], [70..79],
           [80..89], [90..99], [100..108]]"

text \<open>
  The two cell layouts in the words of the specification: \<open>ESC [ n m\<close>, a space, \<open>n\<close>
  right-justified in a field of width 3, \<open>ESC [ m\<close>; the prefixed layout has
  \<open>prefix ;\<close> before the first \<open>n\<close>.
\<close>

definition sgr_plain_cell :: "int \<Rightarrow> string" where
  "sgr_plain_cell n =
     [ESC] @ ''['' @ dec_int n @ ''m'' @ '' '' @ rjust 3 (dec_int n) @ [ESC] @ ''[m''"

definition sgr_prefixed_cell :: "int \<Rightarrow> int \<Rightarrow> string" where
  "sgr_prefixed_cell p n =
     [ESC] @ ''['' @ dec_int p @ '';'' @ dec_int n @ ''m'' @ '' '' @ rjust 3 (dec_int n)
       @ [ESC] @ ''[m''"

text \<open>
  The calls of a run are classified by their shape: a cell passes arguments, a line
  break is the bare \<open>printf("\\n")\<close>, every other call without arguments is a label.
  A group is a call together with everything up to the next label; its rows are the
  runs of calls between line breaks.
\<close>

fun call_args :: "call \<Rightarrow> int list" where
  "call_args (Printf fmt args) = args"

fun is_cell :: "call \<Rightarrow> bool" where
  "is_cell (Printf fmt args) = (args \<noteq> [])"

fun is_break :: "call \<Rightarrow> bool" where
  "is_break (Printf fmt args) = (args = [] \<and> fmt = [NL])"

fun is_label :: "call \<Rightarrow> bool" where
  "is_label (Printf fmt args) = (args = [] \<and> fmt \<noteq> [NL])"

function groups_of :: "call list \<Rightarrow> (call \<times> call list) list" where
  "groups_of [] = []"
| "groups_of (c # cs) =
     (c, takeWhile (\<lambda>x. \<not> is_label x) cs) # groups_of (dropWhile (\<lambda>x. \<not> is_label x) cs)"
  by pat_completeness auto
termination
  by (relation "measure length") (auto simp: length_dropWhile_le le_imp_less_Suc)

function rows_of :: "call list \<Rightarrow> call list list" where
  "rows_of [] = []"
| "rows_of (c # cs) =
     takeWhile (\<lambda>x. \<not> is_break x) (c # cs)
       # rows_of (drop 1 (dropWhile (\<lambda>x. \<not> is_break x) (c # cs)))"
  by pat_completeness auto
termination
proof (relation "measure length")
  fix c :: call and cs :: "call list"
  have "length (dropWhile (\<lambda>x. \<not> is_break x) (c # cs)) \<le> length (c # cs)"
    by (rule length_dropWhile_le)
  then show "(drop 1 (dropWhile (\<lambda>x. \<not> is_break x) (c # cs)), c # cs) \<in> measure length"
    by simp
qed simp

declare groups_of.simps [simp del] rows_of.simps [simp del]

subsection \<open>What the loops write\<close>

lemma row_values_step:
  "j < 10 \<Longrightarrow> row_values i j = (if 108 < 10 * i + j then [] else (10 * i + j) # row_values i (j + 1))"
  by (simp add: row_values_def upto_rec1 [of j 9])

lemma row_values_done: "\<not> j < 10 \<Longrightarrow> row_values i j = []"
  by (simp add: row_values_def)

lemma inner_loop_calls:
  "calls (inner_loop fmt s) =
     calls s @ map (\<lambda>n. Printf fmt [n, n]) (row_values (loc_i s) (loc_j s))"
proof (induction fmt s rule: inner_loop.induct)
  case (1 fmt s)
  show ?case
  proof (cases "loc_j s < 10")
    case False
    then show ?thesis
      by (subst inner_loop.simps) (simp add: row_values_done)
  next
    case True
    show ?thesis
    proof (cases "108 < 10 * loc_i s + loc_j s")
      case True
      with \<open>loc_j s < 10\<close> show ?thesis
        by (subst inner_loop.simps) (simp add: row_values_step)
    next
      case False
      with \<open>loc_j s < 10\<close> "1.IH" [OF \<open>loc_j s < 10\<close> refl _ refl] show ?thesis
        by (subst inner_loop.simps) (simp add: row_values_step printf_def)
    qed
  qed
qed

lemma block_calls_step:
  "i < 11 \<Longrightarrow> block_calls fmt i = row_calls fmt i @ block_calls fmt (i + 1)"
  by (simp add: block_calls_def upto_rec1 [of i 10])

lemma block_calls_done: "\<not> i < 11 \<Longrightarrow> block_calls fmt i = []"
  by (simp add: block_calls_def)

lemma outer_loop_calls:
  "calls (outer_loop fmt s) = calls s @ block_calls fmt (loc_i s)"
proof (induction fmt s rule: outer_loop.induct)
  case (1 fmt s)
  show ?case
  proof (cases "loc_i s < 11")
    case False
    then show ?thesis
      by (subst outer_loop.simps) (simp add: block_calls_done)
  next
    case True
    with "1.IH" [OF True refl refl] show ?thesis
      by (subst outer_loop.simps)
         (simp add: block_calls_step row_calls_def printf_def inner_loop_calls inner_loop_loc_i)
  qed
qed

lemma for_rows_calls: "calls (for_rows fmt s) = calls s @ block_calls fmt 0"
  by (simp add: for_rows_def outer_loop_calls)

lemma printf_calls: "calls (printf fmt args s) = calls s @ [Printf fmt args]"
  by (simp add: printf_def)

lemma main_calls:
  "calls (snd (main s0)) = calls s0 @
     Printf (''Plain:'' @ [NL]) [] # block_calls (ESC # ''[%dm %3d'' @ ESC # ''[m'') 0 @
     Printf (''Bold:'' @ [NL]) [] # block_calls (ESC # ''[1;%dm %3d'' @ ESC # ''[m'') 0 @
     Printf (''Bold:'' @ [NL]) [] # block_calls (ESC # ''[2;%dm %3d'' @ ESC # ''[m'') 0 @
     Printf (''Italic:'' @ [NL]) [] # block_calls (ESC # ''[3;%dm %3d'' @ ESC # ''[m'') 0 @
     Printf (''Blink:'' @ [NL]) [] # block_calls (ESC # ''[5;%dm %3d'' @ ESC # ''[m'') 0 @
     Printf (''Underline:'' @ [NL]) [] # block_calls (ESC # ''[4;%dm %3d'' @ ESC # ''[m'') 0 @
     Printf (''Crossed out :'' @ [NL]) [] # block_calls (ESC # ''[9;%dm %3d'' @ ESC # ''[m'') 0 @
     Printf (''Double underlined :'' @ [NL]) [] # block_calls (ESC # ''[21;%dm %3d'' @ ESC # ''[m'') 0 @
     Printf (''Conceal/hide :'' @ [NL]) [] # block_calls (ESC # ''[8;%dm %3d'' @ ESC # ''[m'') 0"
  unfolding main_def Let_def snd_conv for_rows_calls printf_calls by simp

subsection \<open>Groups and rows of the run\<close>

lemma upto_from_0: "[0..numeral k] = 0 # 1 # [2..numeral k]"
  by (simp add: upto_rec1 [of 0] upto_rec1 [of 1])

lemma groups_of_Nil: "groups_of [] = []"
  by (simp add: groups_of.simps)

lemma groups_of_last:
  assumes "\<And>x. x \<in> set body \<Longrightarrow> \<not> is_label x"
  shows "groups_of (l # body) = [(l, body)]"
proof -
  have dw: "dropWhile (\<lambda>x. \<not> is_label x) body = []"
    using assms by (simp add: dropWhile_eq_Nil_conv)
  have tw: "takeWhile (\<lambda>x. \<not> is_label x) body = body"
    using assms by (simp add: takeWhile_eq_all_conv)
  show ?thesis
    by (subst groups_of.simps) (simp only: dw tw groups_of_Nil)
qed

lemma groups_of_next:
  assumes "\<And>x. x \<in> set body \<Longrightarrow> \<not> is_label x" and "is_label l'"
  shows "groups_of (l # body @ l' # rest) = (l, body) # groups_of (l' # rest)"
proof -
  have "takeWhile (\<lambda>x. \<not> is_label x) (body @ l' # rest) = body"
    using assms by simp
  moreover have "dropWhile (\<lambda>x. \<not> is_label x) (body @ l' # rest) = l' # rest"
    using assms by simp
  ultimately show ?thesis
    by (simp add: groups_of.simps(2) [of l "body @ l' # rest"])
qed

lemma rows_of_Nil: "rows_of [] = []"
  by (simp add: rows_of.simps)

lemma rows_of_row:
  assumes "\<And>x. x \<in> set r \<Longrightarrow> \<not> is_break x" and "is_break t"
  shows "rows_of (r @ t # rest) = r # rows_of rest"
proof -
  have tw: "takeWhile (\<lambda>x. \<not> is_break x) (r @ t # rest) = r"
    using assms by simp
  have dw: "dropWhile (\<lambda>x. \<not> is_break x) (r @ t # rest) = t # rest"
    using assms by simp
  obtain c cs where e: "r @ t # rest = c # cs"
    by (cases "r @ t # rest") auto
  show ?thesis
    using tw dw unfolding e by (simp add: rows_of.simps(2))
qed

lemma rows_of_rows:
  "rows_of (concat (map (\<lambda>r. map (\<lambda>n. Printf fmt [n, n]) r @ [Printf [NL] []]) rs))
     = map (map (\<lambda>n. Printf fmt [n, n])) rs"
proof (induction rs)
  case Nil
  show ?case by (simp add: rows_of_Nil)
next
  case (Cons r rs)
  have "rows_of (map (\<lambda>n. Printf fmt [n, n]) r @ Printf [NL] []
          # concat (map (\<lambda>r. map (\<lambda>n. Printf fmt [n, n]) r @ [Printf [NL] []]) rs))
        = map (\<lambda>n. Printf fmt [n, n]) r
          # rows_of (concat (map (\<lambda>r. map (\<lambda>n. Printf fmt [n, n]) r @ [Printf [NL] []]) rs))"
    by (rule rows_of_row) auto
  with Cons.IH show ?case by simp
qed

lemma rows_grid: "map (\<lambda>i. row_values i 0) [0..10] = grid"
  by (simp add: row_values_def grid_def upto_from_0)

lemma concat_grid: "concat grid = [0..108]"
  by (simp add: grid_def upto_from_0)

lemma block_calls_grid:
  "block_calls fmt 0 = concat (map (\<lambda>r. map (\<lambda>n. Printf fmt [n, n]) r @ [Printf [NL] []]) grid)"
proof -
  have "block_calls fmt 0
        = concat (map (\<lambda>r. map (\<lambda>n. Printf fmt [n, n]) r @ [Printf [NL] []])
                      (map (\<lambda>i. row_values i 0) [0..10]))"
    unfolding block_calls_def row_calls_def map_map comp_def ..
  then show ?thesis by (simp only: rows_grid)
qed

lemma rows_of_block: "rows_of (block_calls fmt 0) = map (map (\<lambda>n. Printf fmt [n, n])) grid"
  by (simp only: block_calls_grid rows_of_rows)

lemma cells_of_block:
  "filter is_cell (block_calls fmt 0) = map (\<lambda>n. Printf fmt [n, n]) [0..108]"
proof -
  have "filter is_cell (concat (map (\<lambda>r. map (\<lambda>n. Printf fmt [n, n]) r @ [Printf [NL] []]) rs))
        = map (\<lambda>n. Printf fmt [n, n]) (concat rs)" for rs
    by (induction rs) (simp_all add: filter_map comp_def)
  then show ?thesis by (simp only: block_calls_grid concat_grid)
qed

lemma block_no_label: "x \<in> set (block_calls fmt i) \<Longrightarrow> \<not> is_label x"
  by (auto simp: block_calls_def row_calls_def split: if_splits)

lemma groups_of_next_block:
  "is_label l' \<Longrightarrow>
     groups_of (l # block_calls fmt i @ l' # rest) = (l, block_calls fmt i) # groups_of (l' # rest)"
  by (rule groups_of_next) (auto dest: block_no_label)

lemma groups_of_last_block: "groups_of (l # block_calls fmt i) = [(l, block_calls fmt i)]"
  by (rule groups_of_last) (auto dest: block_no_label)

lemma trace_calls:
  "trace a b c =
     Printf (''Plain:'' @ [NL]) [] # block_calls (ESC # ''[%dm %3d'' @ ESC # ''[m'') 0 @
     Printf (''Bold:'' @ [NL]) [] # block_calls (ESC # ''[1;%dm %3d'' @ ESC # ''[m'') 0 @
     Printf (''Bold:'' @ [NL]) [] # block_calls (ESC # ''[2;%dm %3d'' @ ESC # ''[m'') 0 @
     Printf (''Italic:'' @ [NL]) [] # block_calls (ESC # ''[3;%dm %3d'' @ ESC # ''[m'') 0 @
     Printf (''Blink:'' @ [NL]) [] # block_calls (ESC # ''[5;%dm %3d'' @ ESC # ''[m'') 0 @
     Printf (''Underline:'' @ [NL]) [] # block_calls (ESC # ''[4;%dm %3d'' @ ESC # ''[m'') 0 @
     Printf (''Crossed out :'' @ [NL]) [] # block_calls (ESC # ''[9;%dm %3d'' @ ESC # ''[m'') 0 @
     Printf (''Double underlined :'' @ [NL]) [] # block_calls (ESC # ''[21;%dm %3d'' @ ESC # ''[m'') 0 @
     Printf (''Conceal/hide :'' @ [NL]) [] # block_calls (ESC # ''[8;%dm %3d'' @ ESC # ''[m'') 0"
  unfolding trace_def main_calls by (simp add: start_def)

lemma trace_groups:
  "groups_of (trace a b c) =
     [(Printf (''Plain:'' @ [NL]) [], block_calls (ESC # ''[%dm %3d'' @ ESC # ''[m'') 0),
      (Printf (''Bold:'' @ [NL]) [], block_calls (ESC # ''[1;%dm %3d'' @ ESC # ''[m'') 0),
      (Printf (''Bold:'' @ [NL]) [], block_calls (ESC # ''[2;%dm %3d'' @ ESC # ''[m'') 0),
      (Printf (''Italic:'' @ [NL]) [], block_calls (ESC # ''[3;%dm %3d'' @ ESC # ''[m'') 0),
      (Printf (''Blink:'' @ [NL]) [], block_calls (ESC # ''[5;%dm %3d'' @ ESC # ''[m'') 0),
      (Printf (''Underline:'' @ [NL]) [], block_calls (ESC # ''[4;%dm %3d'' @ ESC # ''[m'') 0),
      (Printf (''Crossed out :'' @ [NL]) [], block_calls (ESC # ''[9;%dm %3d'' @ ESC # ''[m'') 0),
      (Printf (''Double underlined :'' @ [NL]) [], block_calls (ESC # ''[21;%dm %3d'' @ ESC # ''[m'') 0),
      (Printf (''Conceal/hide :'' @ [NL]) [], block_calls (ESC # ''[8;%dm %3d'' @ ESC # ''[m'') 0)]"
  unfolding trace_calls by (simp add: groups_of_next_block groups_of_last_block)

lemma labels_of_block: "filter is_label (block_calls fmt i) = []"
  by (auto simp: filter_empty_conv dest: block_no_label)

lemma replicate_9: "replicate 9 x = [x, x, x, x, x, x, x, x, x]"
  by (simp add: numeral_eq_Suc)

lemma block_values:
  "map call_args (filter is_cell (block_calls fmt 0)) = map (\<lambda>n. [n, n]) [0..108]"
  by (simp add: cells_of_block comp_def)

lemma block_row_lengths:
  "map (\<lambda>r. length (filter is_cell r)) (rows_of (block_calls fmt 0))
     = [10, 10, 10, 10, 10, 10, 10, 10, 10, 10, 9]"
proof -
  have "length (filter is_cell (map (\<lambda>n. Printf fmt [n, n]) r)) = length r" for r :: "int list"
    by (induction r) simp_all
  then have "map (\<lambda>r. length (filter is_cell r)) (rows_of (block_calls fmt 0)) = map length grid"
    by (simp add: rows_of_block comp_def)
  also have "map length grid = [10, 10, 10, 10, 10, 10, 10, 10, 10, 10, 9]"
    by (simp add: grid_def upto_from_0)
  finally show ?thesis .
qed

lemma block_last_row:
  "map call_args (last (rows_of (block_calls fmt 0))) = map (\<lambda>n. [n, n]) [100..108]"
  by (simp add: rows_of_block grid_def comp_def)

subsection \<open>Rendering the calls\<close>

lemma dec_int_prefixes:
  "dec_int 1 = ''1''" "dec_int 2 = ''2''" "dec_int 3 = ''3''" "dec_int 4 = ''4''"
  "dec_int 5 = ''5''" "dec_int 8 = ''8''" "dec_int 9 = ''9''" "dec_int 21 = ''21''"
  by (simp_all add: dec_int_def dec_nat.simps digit_char_def)

lemma dec_int_0_108: "dec_int 0 = ''0''" "dec_int 108 = ''108''"
  by (simp_all add: dec_int_def dec_nat.simps digit_char_def)

lemma directive_d: "directive 0 (CHR ''d'' # cs) (a # as) = dec_int a @ format cs as"
  by (simp add: rjust_def)

lemma directive_3d:
  "directive 0 (CHR ''3'' # CHR ''d'' # cs) (a # as) = rjust 3 (dec_int a) @ format cs as"
proof -
  have "digit_val CHR ''3'' = 3"
    by (simp add: digit_val_def)
  then show ?thesis
    by (simp add: is_digit_def)
qed

lemma format_plain:
  "format (ESC # ''[%dm %3d'' @ ESC # ''[m'') [n, n] = sgr_plain_cell n"
  by (simp add: sgr_plain_cell_def directive_d directive_3d del: directive.simps)

lemma format_prefixed:
  "format (ESC # ''[1;%dm %3d'' @ ESC # ''[m'') [n, n] = sgr_prefixed_cell 1 n"
  "format (ESC # ''[2;%dm %3d'' @ ESC # ''[m'') [n, n] = sgr_prefixed_cell 2 n"
  "format (ESC # ''[3;%dm %3d'' @ ESC # ''[m'') [n, n] = sgr_prefixed_cell 3 n"
  "format (ESC # ''[5;%dm %3d'' @ ESC # ''[m'') [n, n] = sgr_prefixed_cell 5 n"
  "format (ESC # ''[4;%dm %3d'' @ ESC # ''[m'') [n, n] = sgr_prefixed_cell 4 n"
  "format (ESC # ''[9;%dm %3d'' @ ESC # ''[m'') [n, n] = sgr_prefixed_cell 9 n"
  "format (ESC # ''[21;%dm %3d'' @ ESC # ''[m'') [n, n] = sgr_prefixed_cell 21 n"
  "format (ESC # ''[8;%dm %3d'' @ ESC # ''[m'') [n, n] = sgr_prefixed_cell 8 n"
  by (simp_all add: sgr_prefixed_cell_def dec_int_prefixes directive_d directive_3d del: directive.simps)

lemmas format_cells = format_plain [simplified append.simps] format_prefixed [simplified append.simps]

lemma digit_char_digit: "k < 10 \<Longrightarrow> digit_char k \<in> set ''0123456789''"
  unfolding digit_char_def by (intro nth_mem) simp

lemma dec_nat_digits: "set (dec_nat k) \<subseteq> set ''0123456789''"
proof (induction k rule: dec_nat.induct)
  case (1 k)
  show ?case
  proof (cases "k < 10")
    case True
    then have "digit_char k \<in> set ''0123456789''"
      by (rule digit_char_digit)
    with True show ?thesis
      by (subst dec_nat.simps) simp
  next
    case False
    have "digit_char (k mod 10) \<in> set ''0123456789''"
      by (rule digit_char_digit) simp
    with False "1.IH" show ?thesis
      by (subst dec_nat.simps) simp
  qed
qed

lemma dec_nat_no_NL: "NL \<notin> set (dec_nat k)"
  using dec_nat_digits [of k] by auto

lemma dec_int_no_NL: "NL \<notin> set (dec_int k)"
  by (simp add: dec_int_def dec_nat_no_NL)

lemma cell_no_NL:
  "count_list (sgr_plain_cell n) NL = 0" "count_list (sgr_prefixed_cell p n) NL = 0"
  by (simp_all add: sgr_plain_cell_def sgr_prefixed_cell_def rjust_def dec_int_no_NL)

lemma cells_rendered:
  "map render (filter is_cell (block_calls fmt 0)) = map (\<lambda>n. format fmt [n, n]) [0..108]"
  by (simp add: cells_of_block comp_def)

lemma last_of_0_108: "drop 108 (map f [0..108]) = [f 108]"
  by (simp add: upto_rec2 [of 0 108])

lemma first_of_0_108: "take (Suc 0) (map f [0..108]) = [f 0]"
  by (simp add: upto_rec1 [of 0 108])

lemma cell_0: "sgr_plain_cell 0 = ESC # ''[0m   0'' @ ESC # ''[m''"
  by (simp add: sgr_plain_cell_def dec_int_0_108 rjust_def numeral_eq_Suc)

lemma cell_108:
  "sgr_plain_cell 108 = ESC # ''[108m 108'' @ ESC # ''[m''"
  "sgr_prefixed_cell 1 108 = ESC # ''[1;108m 108'' @ ESC # ''[m''"
  "sgr_prefixed_cell 2 108 = ESC # ''[2;108m 108'' @ ESC # ''[m''"
  "sgr_prefixed_cell 3 108 = ESC # ''[3;108m 108'' @ ESC # ''[m''"
  "sgr_prefixed_cell 5 108 = ESC # ''[5;108m 108'' @ ESC # ''[m''"
  "sgr_prefixed_cell 4 108 = ESC # ''[4;108m 108'' @ ESC # ''[m''"
  "sgr_prefixed_cell 9 108 = ESC # ''[9;108m 108'' @ ESC # ''[m''"
  "sgr_prefixed_cell 21 108 = ESC # ''[21;108m 108'' @ ESC # ''[m''"
  "sgr_prefixed_cell 8 108 = ESC # ''[8;108m 108'' @ ESC # ''[m''"
  by (simp_all add: sgr_plain_cell_def sgr_prefixed_cell_def dec_int_0_108 dec_int_prefixes rjust_def)

lemma replicate_2: "replicate 2 x = [x, x]"
  by (simp add: numeral_2_eq_2)

lemma rjust_examples:
  "rjust 3 (dec_int 5) = ''  5''" "rjust 3 (dec_int 42) = '' 42''" "rjust 3 (dec_int 108) = ''108''"
  by (simp_all add: rjust_def dec_int_def dec_nat.simps digit_char_def replicate_2)

lemma labels_of_trace:
  "filter is_label (trace a b c) =
     [Printf (''Plain:'' @ [NL]) [], Printf (''Bold:'' @ [NL]) [], Printf (''Bold:'' @ [NL]) [],
      Printf (''Italic:'' @ [NL]) [], Printf (''Blink:'' @ [NL]) [],
      Printf (''Underline:'' @ [NL]) [], Printf (''Crossed out :'' @ [NL]) [],
      Printf (''Double underlined :'' @ [NL]) [], Printf (''Conceal/hide :'' @ [NL]) []]"
  unfolding trace_calls by (simp add: labels_of_block)

lemma block_starts: "map call_args (take (Suc 0) (block_calls fmt 0)) = [[0, 0]]"
  by (simp add: block_calls_grid grid_def upto_from_0)

lemma block_is_rows:
  "concat (map (\<lambda>r. r @ [Printf [NL] []]) (rows_of (block_calls fmt 0))) = block_calls fmt 0"
  unfolding rows_of_block unfolding block_calls_grid by (simp add: comp_def)

lemma block_rows_are_cells:
  "map (\<lambda>r. r \<noteq> [] \<and> filter is_cell r = r) (rows_of (block_calls fmt 0)) = replicate 11 True"
proof -
  have "filter is_cell (map (\<lambda>n. Printf fmt [n, n]) r) = map (\<lambda>n. Printf fmt [n, n]) r"
    for r :: "int list"
    by (induction r) simp_all
  then have "map (\<lambda>r. r \<noteq> [] \<and> filter is_cell r = r) (rows_of (block_calls fmt 0))
             = map (\<lambda>r. r \<noteq> []) grid"
    by (simp add: rows_of_block comp_def)
  also have "\<dots> = replicate 11 True"
    by (simp add: grid_def numeral_eq_Suc)
  finally show ?thesis .
qed

lemma count_concat: "count_list (concat xss) x = sum_list (map (\<lambda>xs. count_list xs x) xss)"
  by (induction xss) simp_all

lemma row_line_breaks:
  assumes "\<And>n. count_list (format fmt [n, n]) NL = 0"
  shows "count_list (concat (map render (map (\<lambda>n. Printf fmt [n, n]) r @ [Printf [NL] []]))) NL = 1"
proof -
  have "count_list (concat (map render (map (\<lambda>n. Printf fmt [n, n]) r))) NL = 0"
    by (induction r) (simp_all add: assms)
  then show ?thesis by simp
qed

lemma block_line_breaks:
  assumes "\<And>n. count_list (format fmt [n, n]) NL = 0"
  shows "map (\<lambda>r. count_list (concat (map render (r @ [Printf [NL] []]))) NL)
           (rows_of (block_calls fmt 0)) = replicate 11 1"
proof -
  have "map (\<lambda>r. count_list (concat (map render (r @ [Printf [NL] []]))) NL)
          (rows_of (block_calls fmt 0)) = map (\<lambda>r. 1) grid"
    unfolding rows_of_block map_map comp_def
    by (simp only: row_line_breaks [OF assms])
  also have "\<dots> = replicate 11 1"
    by (simp add: grid_def numeral_eq_Suc)
  finally show ?thesis .
qed

lemma formats_no_NL:
  "count_list (format (ESC # ''[%dm %3d'' @ ESC # ''[m'') [n, n]) NL = 0"
  "count_list (format (ESC # ''[1;%dm %3d'' @ ESC # ''[m'') [n, n]) NL = 0"
  "count_list (format (ESC # ''[2;%dm %3d'' @ ESC # ''[m'') [n, n]) NL = 0"
  "count_list (format (ESC # ''[3;%dm %3d'' @ ESC # ''[m'') [n, n]) NL = 0"
  "count_list (format (ESC # ''[5;%dm %3d'' @ ESC # ''[m'') [n, n]) NL = 0"
  "count_list (format (ESC # ''[4;%dm %3d'' @ ESC # ''[m'') [n, n]) NL = 0"
  "count_list (format (ESC # ''[9;%dm %3d'' @ ESC # ''[m'') [n, n]) NL = 0"
  "count_list (format (ESC # ''[21;%dm %3d'' @ ESC # ''[m'') [n, n]) NL = 0"
  "count_list (format (ESC # ''[8;%dm %3d'' @ ESC # ''[m'') [n, n]) NL = 0"
  by (simp_all only: format_plain format_prefixed cell_no_NL)

lemma blocks_line_breaks:
  "map (\<lambda>r. count_list (concat (map render (r @ [Printf [NL] []]))) NL)
     (rows_of (block_calls (ESC # ''[%dm %3d'' @ ESC # ''[m'') 0)) = replicate 11 1"
  "map (\<lambda>r. count_list (concat (map render (r @ [Printf [NL] []]))) NL)
     (rows_of (block_calls (ESC # ''[1;%dm %3d'' @ ESC # ''[m'') 0)) = replicate 11 1"
  "map (\<lambda>r. count_list (concat (map render (r @ [Printf [NL] []]))) NL)
     (rows_of (block_calls (ESC # ''[2;%dm %3d'' @ ESC # ''[m'') 0)) = replicate 11 1"
  "map (\<lambda>r. count_list (concat (map render (r @ [Printf [NL] []]))) NL)
     (rows_of (block_calls (ESC # ''[3;%dm %3d'' @ ESC # ''[m'') 0)) = replicate 11 1"
  "map (\<lambda>r. count_list (concat (map render (r @ [Printf [NL] []]))) NL)
     (rows_of (block_calls (ESC # ''[5;%dm %3d'' @ ESC # ''[m'') 0)) = replicate 11 1"
  "map (\<lambda>r. count_list (concat (map render (r @ [Printf [NL] []]))) NL)
     (rows_of (block_calls (ESC # ''[4;%dm %3d'' @ ESC # ''[m'') 0)) = replicate 11 1"
  "map (\<lambda>r. count_list (concat (map render (r @ [Printf [NL] []]))) NL)
     (rows_of (block_calls (ESC # ''[9;%dm %3d'' @ ESC # ''[m'') 0)) = replicate 11 1"
  "map (\<lambda>r. count_list (concat (map render (r @ [Printf [NL] []]))) NL)
     (rows_of (block_calls (ESC # ''[21;%dm %3d'' @ ESC # ''[m'') 0)) = replicate 11 1"
  "map (\<lambda>r. count_list (concat (map render (r @ [Printf [NL] []]))) NL)
     (rows_of (block_calls (ESC # ''[8;%dm %3d'' @ ESC # ''[m'') 0)) = replicate 11 1"
  by (rule block_line_breaks, rule formats_no_NL)+

lemma block_length: "length (block_calls fmt 0) = 120"
  by (simp add: block_calls_grid grid_def upto_from_0)

lemma block_newlines:
  assumes "\<And>n. count_list (format fmt [n, n]) NL = 0"
  shows "sum_list (map (\<lambda>c. count_list (render c) NL) (block_calls fmt 0)) = 11"
proof -
  have "sum_list (map (\<lambda>c. count_list (render c) NL)
          (concat (map (\<lambda>r. map (\<lambda>n. Printf fmt [n, n]) r @ [Printf [NL] []]) rs))) = length rs"
    for rs :: "int list list"
  proof (induction rs)
    case Nil
    show ?case by simp
  next
    case (Cons r rs)
    have "sum_list (map (\<lambda>c. count_list (render c) NL) (map (\<lambda>n. Printf fmt [n, n]) r)) = 0"
      by (induction r) (simp_all add: assms)
    with Cons.IH show ?case by simp
  qed
  then have "sum_list (map (\<lambda>c. count_list (render c) NL) (block_calls fmt 0)) = length grid"
    unfolding block_calls_grid .
  also have "length grid = 11"
    by (simp add: grid_def)
  finally show ?thesis .
qed

lemma blocks_newlines:
  "sum_list (map (\<lambda>c. count_list (render c) NL) (block_calls (ESC # ''[%dm %3d'' @ ESC # ''[m'') 0)) = 11"
  "sum_list (map (\<lambda>c. count_list (render c) NL) (block_calls (ESC # ''[1;%dm %3d'' @ ESC # ''[m'') 0)) = 11"
  "sum_list (map (\<lambda>c. count_list (render c) NL) (block_calls (ESC # ''[2;%dm %3d'' @ ESC # ''[m'') 0)) = 11"
  "sum_list (map (\<lambda>c. count_list (render c) NL) (block_calls (ESC # ''[3;%dm %3d'' @ ESC # ''[m'') 0)) = 11"
  "sum_list (map (\<lambda>c. count_list (render c) NL) (block_calls (ESC # ''[5;%dm %3d'' @ ESC # ''[m'') 0)) = 11"
  "sum_list (map (\<lambda>c. count_list (render c) NL) (block_calls (ESC # ''[4;%dm %3d'' @ ESC # ''[m'') 0)) = 11"
  "sum_list (map (\<lambda>c. count_list (render c) NL) (block_calls (ESC # ''[9;%dm %3d'' @ ESC # ''[m'') 0)) = 11"
  "sum_list (map (\<lambda>c. count_list (render c) NL) (block_calls (ESC # ''[21;%dm %3d'' @ ESC # ''[m'') 0)) = 11"
  "sum_list (map (\<lambda>c. count_list (render c) NL) (block_calls (ESC # ''[8;%dm %3d'' @ ESC # ''[m'') 0)) = 11"
  by (rule block_newlines, rule formats_no_NL)+

lemmas blocks_newlines_nf = blocks_newlines [simplified append.simps]

lemma block_ends:
  "block_calls fmt 0 =
     (concat (map (row_calls fmt) [0..9]) @ map (\<lambda>n. Printf fmt [n, n]) (row_values 10 0))
       @ [Printf [NL] []]"
  by (simp add: block_calls_def row_calls_def upto_rec2 [of 0 10])

lemma bytes_of_run: "stdout_bytes (snd (main (start a b c))) = concat (map render (trace a b c))"
  by (simp add: stdout_bytes_def trace_def)

subsection \<open>The claims\<close>

text \<open>
  C1. In every one of the nine groups the cells carry, in the order they are written,
  exactly the values 0, 1, ..., 108: each cell call passes \<open>n\<close> twice (for \<open>%d\<close> and for
  \<open>%3d\<close>), and the values are strictly increasing without gaps or repeats.
\<close>

theorem group_values_0_to_108:
  "map (\<lambda>g. map call_args (filter is_cell (snd g))) (groups_of (trace a b c))
     = replicate 9 (map (\<lambda>n. [n, n]) [0..108])"
  by (simp add: trace_groups block_values replicate_9)

text \<open>
  C2. Every group has eleven rows; the first ten hold ten cells each and the last holds
  nine, the values 100, ..., 108.
\<close>

theorem group_rows_10_and_9:
  "map (\<lambda>g. map (\<lambda>r. length (filter is_cell r)) (rows_of (snd g))) (groups_of (trace a b c))
     = replicate 9 [10, 10, 10, 10, 10, 10, 10, 10, 10, 10, 9]
   \<and> map (\<lambda>g. map call_args (last (rows_of (snd g)))) (groups_of (trace a b c))
     = replicate 9 (map (\<lambda>n. [n, n]) [100..108])"
  by (simp add: trace_groups block_row_lengths block_last_row replicate_9)

text \<open>
  C3. In the eight groups after Plain the bytes of the cell for \<open>n\<close> are
  \<open>ESC [ prefix ; n m\<close>, a space, \<open>n\<close> right-justified in width 3, \<open>ESC [ m\<close>, for every
  \<open>n\<close> from 0 to 108, with the prefixes 1, 2, 3, 5, 4, 9, 21, 8 in group order.
\<close>

theorem prefixed_cells_exact:
  "map (\<lambda>g. map render (filter is_cell (snd g))) (drop 1 (groups_of (trace a b c)))
     = map (\<lambda>p. map (sgr_prefixed_cell p) [0..108]) [1, 2, 3, 5, 4, 9, 21, 8]"
  by (simp add: trace_groups cells_rendered format_cells del: format.simps)

text \<open>
  C4. In the Plain group the bytes of the cell for \<open>n\<close> are \<open>ESC [ n m\<close>, a space, \<open>n\<close>
  right-justified in width 3, \<open>ESC [ m\<close>, with no prefix and no semicolon. Its first cell
  is \<open>ESC[0m\<close>, three spaces, \<open>0\<close>, \<open>ESC[m\<close>; the last cell of every group shows 108
  without padding.
\<close>

theorem plain_cells_exact:
  "map (\<lambda>g. map render (filter is_cell (snd g))) (take 1 (groups_of (trace a b c)))
     = [map sgr_plain_cell [0..108]]
   \<and> map (\<lambda>g. take 1 (map render (filter is_cell (snd g)))) (take 1 (groups_of (trace a b c)))
     = [[ESC # ''[0m   0'' @ ESC # ''[m'']]
   \<and> map (\<lambda>g. drop 108 (map render (filter is_cell (snd g)))) (groups_of (trace a b c))
     = [[ESC # ''[108m 108'' @ ESC # ''[m''],
        [ESC # ''[1;108m 108'' @ ESC # ''[m''],
        [ESC # ''[2;108m 108'' @ ESC # ''[m''],
        [ESC # ''[3;108m 108'' @ ESC # ''[m''],
        [ESC # ''[5;108m 108'' @ ESC # ''[m''],
        [ESC # ''[4;108m 108'' @ ESC # ''[m''],
        [ESC # ''[9;108m 108'' @ ESC # ''[m''],
        [ESC # ''[21;108m 108'' @ ESC # ''[m''],
        [ESC # ''[8;108m 108'' @ ESC # ''[m'']]"
  by (simp add: trace_groups cells_rendered format_cells
      first_of_0_108 last_of_0_108 cell_0 cell_108 del: format.simps)

text \<open>
  C5. The run writes exactly nine labels, in the order Plain:, Bold:, Bold:, Italic:,
  Blink:, Underline:, Crossed out :, Double underlined :, Conceal/hide :, each ended by
  a newline. Every group starts with its label, the groups make up the whole output,
  and the call right after a label is the cell for 0 of the group's first row.
\<close>

theorem nine_labels_in_order:
  "map render (filter is_label (trace a b c)) =
     [''Plain:'' @ [NL], ''Bold:'' @ [NL], ''Bold:'' @ [NL], ''Italic:'' @ [NL],
      ''Blink:'' @ [NL], ''Underline:'' @ [NL], ''Crossed out :'' @ [NL],
      ''Double underlined :'' @ [NL], ''Conceal/hide :'' @ [NL]]
   \<and> map fst (groups_of (trace a b c)) = filter is_label (trace a b c)
   \<and> concat (map (\<lambda>g. fst g # snd g) (groups_of (trace a b c))) = trace a b c
   \<and> map (\<lambda>g. map call_args (take 1 (snd g))) (groups_of (trace a b c)) = replicate 9 [[0, 0]]"
proof (intro conjI)
  show "map render (filter is_label (trace a b c)) =
     [''Plain:'' @ [NL], ''Bold:'' @ [NL], ''Bold:'' @ [NL], ''Italic:'' @ [NL],
      ''Blink:'' @ [NL], ''Underline:'' @ [NL], ''Crossed out :'' @ [NL],
      ''Double underlined :'' @ [NL], ''Conceal/hide :'' @ [NL]]"
    by (simp add: labels_of_trace)
  show "map fst (groups_of (trace a b c)) = filter is_label (trace a b c)"
    by (simp add: labels_of_trace trace_groups)
  show "concat (map (\<lambda>g. fst g # snd g) (groups_of (trace a b c))) = trace a b c"
    unfolding trace_groups unfolding trace_calls by simp
  show "map (\<lambda>g. map call_args (take 1 (snd g))) (groups_of (trace a b c)) = replicate 9 [[0, 0]]"
    by (simp add: trace_groups block_starts replicate_9)
qed

text \<open>
  C6. In every group, each of the eleven rows, the short last one included, is a
  non-empty run of cells followed by exactly one line-break call, and the bytes of a
  row together with its line break contain exactly one newline character.
\<close>

theorem one_line_break_after_every_row:
  "map (\<lambda>g. concat (map (\<lambda>r. r @ [Printf [NL] []]) (rows_of (snd g)))) (groups_of (trace a b c))
     = map snd (groups_of (trace a b c))
   \<and> map (\<lambda>g. map (\<lambda>r. r \<noteq> [] \<and> filter is_cell r = r) (rows_of (snd g))) (groups_of (trace a b c))
     = replicate 9 (replicate 11 True)
   \<and> map (\<lambda>g. map (\<lambda>r. count_list (concat (map render (r @ [Printf [NL] []]))) NL)
              (rows_of (snd g))) (groups_of (trace a b c))
     = replicate 9 (replicate 11 1)"
proof (intro conjI)
  show "map (\<lambda>g. concat (map (\<lambda>r. r @ [Printf [NL] []]) (rows_of (snd g)))) (groups_of (trace a b c))
     = map snd (groups_of (trace a b c))"
    unfolding trace_groups list.map snd_conv block_is_rows by (rule refl)
  show "map (\<lambda>g. map (\<lambda>r. r \<noteq> [] \<and> filter is_cell r = r) (rows_of (snd g))) (groups_of (trace a b c))
     = replicate 9 (replicate 11 True)"
    unfolding trace_groups list.map snd_conv block_rows_are_cells replicate_9 by (rule refl)
  show "map (\<lambda>g. map (\<lambda>r. count_list (concat (map render (r @ [Printf [NL] []]))) NL)
              (rows_of (snd g))) (groups_of (trace a b c))
     = replicate 9 (replicate 11 1)"
    unfolding trace_groups list.map snd_conv blocks_line_breaks replicate_9 by (rule refl)
qed

text \<open>
  C7. The bytes written and the exit status are the same for any two runs: they do
  not depend on the starting values of the uninitialised locals, the only thing that
  can differ between two starts of the program.
\<close>

theorem output_independent_of_start:
  "stdout_bytes (snd (main (start a b c))) = stdout_bytes (snd (main (start a' b' c')))
   \<and> fst (main (start a b c)) = fst (main (start a' b' c'))"
proof
  show "stdout_bytes (snd (main (start a b c))) = stdout_bytes (snd (main (start a' b' c')))"
    unfolding stdout_bytes_def main_calls by (simp add: start_def)
  show "fst (main (start a b c)) = fst (main (start a' b' c'))"
    by (simp add: main_def Let_def)
qed

text \<open>
  C8. The program terminates: both loops terminate from every state, and a run of
  \<open>main\<close> makes exactly 1089 calls of \<open>printf\<close>, whatever the state it starts from.
\<close>

theorem main_terminates:
  "inner_loop_dom (fmt, s) \<and> outer_loop_dom (fmt, s)
   \<and> length (calls (snd (main s))) = length (calls s) + 1089"
proof (intro conjI)
  have "All inner_loop_dom"
    by (relation "measure (\<lambda>(fmt, s). nat (10 - loc_j s))") (auto simp: printf_def)
  then show "inner_loop_dom (fmt, s)" ..
  have "All outer_loop_dom"
    by (relation "measure (\<lambda>(fmt, s). nat (11 - loc_i s))")
       (auto simp: printf_def inner_loop_loc_i)
  then show "outer_loop_dom (fmt, s)" ..
  show "length (calls (snd (main s))) = length (calls s) + 1089"
    unfolding main_calls by (simp add: block_length)
qed

text \<open>
  C9. Whatever the starting state, \<open>main\<close> returns the exit status 0; it has no other
  return and no failing branch.
\<close>

theorem exit_status_zero: "fst (main s) = 0"
  by (simp add: main_def Let_def)

text \<open>
  C10. The output holds exactly 108 newline characters and its last byte is a
  newline: 108 newline-terminated lines, nine labels and nine times eleven rows.
\<close>

theorem output_has_108_lines:
  "count_list (stdout_bytes (snd (main (start a b c)))) NL = 108
   \<and> stdout_bytes (snd (main (start a b c))) \<noteq> []
   \<and> last (stdout_bytes (snd (main (start a b c)))) = NL"
proof (intro conjI)
  show "count_list (stdout_bytes (snd (main (start a b c)))) NL = 108"
    unfolding bytes_of_run count_concat trace_calls
    by (simp add: blocks_newlines_nf comp_def)
  have "\<exists>pre. trace a b c = pre @ [Printf [NL] []]"
    unfolding trace_calls
    by (subst (9) block_ends) (simp only: append_Cons [symmetric] append_assoc [symmetric], blast)
  then obtain pre where "trace a b c = pre @ [Printf [NL] []]" ..
  then have e: "stdout_bytes (snd (main (start a b c))) = concat (map render pre) @ [NL]"
    unfolding bytes_of_run by simp
  show "stdout_bytes (snd (main (start a b c))) \<noteq> []"
    unfolding e by simp
  show "last (stdout_bytes (snd (main (start a b c)))) = NL"
    unfolding e by simp
qed

end
